theory Spec2Isabelle
  imports Main "HOL-Library.Log_Nat"
begin

section \<open>Outcomes and the collector loop of \<open>Test\<close>\<close>

text \<open>
  The Go struct \<open>result\<close> (lines 190-195). \<open>time.Duration\<close> is a count of
  nanoseconds, \<open>error\<close> is \<open>nil\<close> (\<open>None\<close>) or carries a message.
\<close>

record result =
  StatusCode :: int
  Duration :: int
  Bytes :: int
  Error :: "string option"

text \<open>The variables declared at lines 117-126, updated by the loop at lines 128-147.\<close>

record collector =
  totalRequests :: int
  successCount :: int
  failedCount :: int
  totalDuration :: int
  minDuration :: int
  maxDuration :: int
  durations :: "int list"
  totalBytes :: int

definition Hour :: int where
  "Hour = 3600 * 1000000000"

definition collector_init :: collector where
  "collector_init =
     \<lparr>totalRequests = 0, successCount = 0, failedCount = 0, totalDuration = 0,
      minDuration = Hour, maxDuration = 0, durations = [], totalBytes = 0\<rparr>"

text \<open>The test of line 142.\<close>

definition is_failed :: "result \<Rightarrow> bool" where
  "is_failed res \<longleftrightarrow> Error res \<noteq> None \<or> StatusCode res \<ge> 400"

text \<open>One iteration of \<open>for res := range results\<close>.\<close>

definition collect_one :: "collector \<Rightarrow> result \<Rightarrow> collector" where
  "collect_one c res =
     (let c1 = c\<lparr>totalRequests := totalRequests c + 1,
                  totalDuration := totalDuration c + Duration res,
                  totalBytes := totalBytes c + Bytes res\<rparr>;
          c2 = (if Duration res < minDuration c1 then c1\<lparr>minDuration := Duration res\<rparr> else c1);
          c3 = (if Duration res > maxDuration c2 then c2\<lparr>maxDuration := Duration res\<rparr> else c2);
          c4 = c3\<lparr>durations := durations c3 @ [Duration res]\<rparr>
      in if is_failed res then c4\<lparr>failedCount := failedCount c4 + 1\<rparr>
         else c4\<lparr>successCount := successCount c4 + 1\<rparr>)"

definition collect :: "result list \<Rightarrow> collector" where
  "collect rs = foldl collect_one collector_init rs"

section \<open>Properties of the collector\<close>

lemma foldl_collect_total:
  "totalRequests (foldl collect_one c rs) = totalRequests c + int (length rs)"
  by (induction rs arbitrary: c) (simp_all add: collect_one_def Let_def)

lemma foldl_collect_failed:
  "failedCount (foldl collect_one c rs) = failedCount c + int (length (filter is_failed rs))"
  by (induction rs arbitrary: c) (simp_all add: collect_one_def Let_def)

lemma foldl_collect_success:
  "successCount (foldl collect_one c rs) =
     successCount c + int (length (filter (\<lambda>r. \<not> is_failed r) rs))"
  by (induction rs arbitrary: c) (simp_all add: collect_one_def Let_def)

lemma foldl_collect_durations:
  "durations (foldl collect_one c rs) = durations c @ map Duration rs"
  by (induction rs arbitrary: c) (simp_all add: collect_one_def Let_def)

lemma foldl_collect_min:
  "minDuration (foldl collect_one c rs) = fold min (map Duration rs) (minDuration c)"
  by (induction rs arbitrary: c) (simp_all add: collect_one_def Let_def min_def)

lemma foldl_collect_max:
  "maxDuration (foldl collect_one c rs) = fold max (map Duration rs) (maxDuration c)"
  by (induction rs arbitrary: c) (simp_all add: collect_one_def Let_def max_def)

lemma collect_total: "totalRequests (collect rs) = int (length rs)"
  by (simp add: collect_def foldl_collect_total collector_init_def)

lemma collect_durations: "durations (collect rs) = map Duration rs"
  by (simp add: collect_def foldl_collect_durations collector_init_def)

lemma fold_min_Min: "fold min xs (a::int) = Min (insert a (set xs))"
proof (induction xs arbitrary: a)
  case Nil
  show ?case by simp
next
  case (Cons x xs)
  have "Min (insert (min x a) (set xs)) = Min (insert a (insert x (set xs)))"
    by (cases "set xs = {}") (simp_all add: min.commute min.left_commute)
  with Cons show ?case by simp
qed

lemma fold_max_Max: "fold max xs (a::int) = Max (insert a (set xs))"
proof (induction xs arbitrary: a)
  case Nil
  show ?case by simp
next
  case (Cons x xs)
  have "Max (insert (max x a) (set xs)) = Max (insert a (insert x (set xs)))"
    by (cases "set xs = {}") (simp_all add: max.commute max.left_commute)
  with Cons show ?case by simp
qed

lemma collect_min: "minDuration (collect rs) = Min (insert Hour (Duration ` set rs))"
  by (simp add: collect_def foldl_collect_min fold_min_Min collector_init_def)

lemma collect_max: "maxDuration (collect rs) = Max (insert 0 (Duration ` set rs))"
  by (simp add: collect_def foldl_collect_max fold_max_Max collector_init_def)


section \<open>Classification and counting\<close>

text \<open>
  Claim C4. Every collected Outcome is counted as failed exactly when its error is
  non-nil or its status code is at least 400, and as successful otherwise; hence the two
  counters add up to the number of collected Outcomes.
\<close>

theorem collect_classification:
  "failedCount (collect rs) =
     int (length (filter (\<lambda>r. Error r \<noteq> None \<or> StatusCode r \<ge> 400) rs)) \<and>
   successCount (collect rs) =
     int (length (filter (\<lambda>r. \<not> (Error r \<noteq> None \<or> StatusCode r \<ge> 400)) rs)) \<and>
   totalRequests (collect rs) = int (length rs) \<and>
   successCount (collect rs) + failedCount (collect rs) = totalRequests (collect rs)"
proof -
  have f: "failedCount (collect rs) = int (length (filter is_failed rs))"
    by (simp add: collect_def foldl_collect_failed collector_init_def)
  have s: "successCount (collect rs) = int (length (filter (\<lambda>r. \<not> is_failed r) rs))"
    by (simp add: collect_def foldl_collect_success collector_init_def)
  have "length (filter (\<lambda>r. \<not> is_failed r) rs) + length (filter is_failed rs) = length rs"
    using sum_length_filter_compl [of is_failed rs] by simp
  then have "successCount (collect rs) + failedCount (collect rs) = int (length rs)"
    using f s by linarith
  then show ?thesis
    using f s by (simp add: collect_total is_failed_def [abs_def])
qed

theorem collect_classification_witness:
  "failedCount (collect [\<lparr>StatusCode = 200, Duration = 5, Bytes = 7, Error = None\<rparr>,
                        \<lparr>StatusCode = 404, Duration = 6, Bytes = 0, Error = None\<rparr>,
                        \<lparr>StatusCode = 0, Duration = 9, Bytes = 0, Error = Some ''timeout''\<rparr>]) = 2 \<and>
   successCount (collect [\<lparr>StatusCode = 200, Duration = 5, Bytes = 7, Error = None\<rparr>,
                        \<lparr>StatusCode = 404, Duration = 6, Bytes = 0, Error = None\<rparr>,
                        \<lparr>StatusCode = 0, Duration = 9, Bytes = 0, Error = Some ''timeout''\<rparr>]) = 1 \<and>
   totalRequests (collect [\<lparr>StatusCode = 200, Duration = 5, Bytes = 7, Error = None\<rparr>,
                        \<lparr>StatusCode = 404, Duration = 6, Bytes = 0, Error = None\<rparr>,
                        \<lparr>StatusCode = 0, Duration = 9, Bytes = 0, Error = Some ''timeout''\<rparr>]) = 3"
  using collect_classification
    [of "[\<lparr>StatusCode = 200, Duration = 5, Bytes = 7, Error = None\<rparr>,
          \<lparr>StatusCode = 404, Duration = 6, Bytes = 0, Error = None\<rparr>,
          \<lparr>StatusCode = 0, Duration = 9, Bytes = 0, Error = Some ''timeout''\<rparr>]"]
  by simp

section \<open>Minimum and maximum latency\<close>





section \<open>The percentile index: \<open>int(float64(len(durations)) * 0.90)\<close>\<close>

text \<open>
  Lines 155-158 compute each index in IEEE-754 binary64 arithmetic: the length is
  converted to \<open>float64\<close>, multiplied by the \<open>float64\<close> nearest to the decimal
  literal, and the product is truncated to \<open>int\<close>. All values involved are
  non-negative and far from the exponent limits, so a \<open>float64\<close> is modelled by a
  natural number scaled by a power of two, and only the rounding of the significand to
  53 bits (round to nearest, ties to even) is written out.

  \<open>rne53 m\<close> rounds the natural number \<open>m\<close> to 53 significant bits: with
  \<open>floorlog 2 m\<close> the bit length of \<open>m\<close>, the low \<open>s = floorlog 2 m - 53\<close>
  bits are rounded away.
\<close>

definition rne53 :: "nat \<Rightarrow> nat" where
  "rne53 m =
     (let s = floorlog 2 m - 53; q = m div 2 ^ s; r = m mod 2 ^ s
      in if s = 0 then m
         else if 2 * r > 2 ^ s \<or> (2 * r = 2 ^ s \<and> odd q) then (q + 1) * 2 ^ s
         else q * 2 ^ s)"


text \<open>
  The significand of the \<open>float64\<close> nearest to the literal \<open>p / q\<close>, for
  \<open>1/2 \<le> p / q < 1\<close>: the value of the constant is \<open>mant53 p q / 2 ^ 53\<close>.
\<close>

definition mant53 :: "nat \<Rightarrow> nat \<Rightarrow> nat" where
  "mant53 p q =
     (let a = p * 2 ^ 53; m = a div q; r = a mod q
      in if 2 * r > q \<or> (2 * r = q \<and> odd m) then m + 1 else m)"

text \<open>
  \<open>int(float64(n) * c)\<close> for the constant \<open>c\<close> written \<open>p / q\<close>: \<open>float64(n)\<close>
  is \<open>rne53 n\<close>, the exact product has the significand
  \<open>rne53 n * mant53 p q\<close> at scale \<open>2 ^ -53\<close>, the multiplication rounds it, and
  the conversion to \<open>int\<close> truncates.
\<close>

definition pidx :: "nat \<Rightarrow> nat \<Rightarrow> nat \<Rightarrow> nat" where
  "pidx p q n = rne53 (rne53 n * mant53 p q) div 2 ^ 53"

subsection \<open>Rounding facts\<close>

lemma rne53_small: "m < 2 ^ 53 \<Longrightarrow> rne53 m = m"
  by (simp add: rne53_def Let_def floorlog_le_iff)

lemma rne53_unfold:
  "rne53 m =
     (if floorlog 2 m - 53 = 0 then m
      else if 2 * (m mod 2 ^ (floorlog 2 m - 53)) > 2 ^ (floorlog 2 m - 53) \<or>
              (2 * (m mod 2 ^ (floorlog 2 m - 53)) = 2 ^ (floorlog 2 m - 53) \<and>
               odd (m div 2 ^ (floorlog 2 m - 53)))
           then (m div 2 ^ (floorlog 2 m - 53) + 1) * 2 ^ (floorlog 2 m - 53)
           else (m div 2 ^ (floorlog 2 m - 53)) * 2 ^ (floorlog 2 m - 53))"
  unfolding rne53_def Let_def by (rule refl)

lemma rne_arith_bounds:
  fixes q t r :: nat
  assumes "r < t"
  shows "2 * (if 2 * r > t \<or> (2 * r = t \<and> b) then (q + 1) * t else q * t) \<le> 2 * (q * t + r) + t \<and>
         2 * (q * t + r) \<le> 2 * (if 2 * r > t \<or> (2 * r = t \<and> b) then (q + 1) * t else q * t) + t"
proof -
  have up: "(q + 1) * t = q * t + t" by (simp add: algebra_simps)
  show ?thesis unfolding up using assms by (cases "2 * r > t \<or> (2 * r = t \<and> b)") auto
qed

lemma rne53_bounds:
  "2 * rne53 m \<le> 2 * m + 2 ^ (floorlog 2 m - 53) \<and>
   2 * m \<le> 2 * rne53 m + 2 ^ (floorlog 2 m - 53)"
proof (cases "floorlog 2 m - 53 = 0")
  case True
  then have "rne53 m = m" by (simp add: rne53_unfold)
  then show ?thesis by simp
next
  case False
  define t :: nat where "t = 2 ^ (floorlog 2 m - 53)"
  have tpos: "0 < t" by (simp add: t_def)
  have m: "m div t * t + m mod t = m" by simp
  have R: "rne53 m = (if 2 * (m mod t) > t \<or> (2 * (m mod t) = t \<and> odd (m div t))
                      then (m div t + 1) * t else (m div t) * t)"
    using False unfolding t_def by (subst rne53_unfold) simp
  have "m mod t < t" using tpos by simp
  from rne_arith_bounds [OF this, of "odd (m div t)" "m div t"]
  show ?thesis unfolding R m t_def [symmetric] .
qed

lemma rne_arith_nearest:
  fixes q t r a :: nat
  assumes "r < t"
    and "2 * (a * t) < 2 * (q * t + r) + t"
    and "2 * (q * t + r) < 2 * (a * t) + t"
  shows "(if 2 * r > t \<or> (2 * r = t \<and> b) then (q + 1) * t else q * t) = a * t"
proof -
  have "(2 * a) * t < (2 * q + 3) * t"
    using assms(1,2) by (simp add: algebra_simps)
  then have "2 * a < 2 * q + 3" by (simp only: mult_less_cancel2)
  then have a1: "a \<le> q + 1" by linarith
  have "(2 * q) * t < (2 * a + 1) * t"
    using assms(3) by (simp add: algebra_simps)
  then have "2 * q < 2 * a + 1" by (simp only: mult_less_cancel2)
  then have a2: "q \<le> a" by linarith
  from a1 a2 consider "a = q" | "a = q + 1" by linarith
  then show ?thesis
  proof cases
    case 1
    then have "2 * r < t" using assms(3) by simp
    then show ?thesis using 1 by simp
  next
    case 2
    then have "t < 2 * r" using assms(2) by (simp add: algebra_simps)
    then show ?thesis using 2 by simp
  qed
qed

lemma rne53_nearest:
  assumes "2 ^ (floorlog 2 m - 53) dvd A"
    and "2 * A < 2 * m + 2 ^ (floorlog 2 m - 53)"
    and "2 * m < 2 * A + 2 ^ (floorlog 2 m - 53)"
  shows "rne53 m = A"
proof (cases "floorlog 2 m - 53 = 0")
  case True
  then have "rne53 m = m" by (simp add: rne53_unfold)
  moreover have "A = m" using assms(2,3) True by simp
  ultimately show ?thesis by simp
next
  case False
  define t :: nat where "t = 2 ^ (floorlog 2 m - 53)"
  have tpos: "0 < t" by (simp add: t_def)
  have m: "m div t * t + m mod t = m" by simp
  have R: "rne53 m = (if 2 * (m mod t) > t \<or> (2 * (m mod t) = t \<and> odd (m div t))
                      then (m div t + 1) * t else (m div t) * t)"
    using False unfolding t_def by (subst rne53_unfold) simp
  from assms(1) obtain a where A: "A = a * t"
    unfolding t_def [symmetric] by (auto simp: dvd_def mult.commute)
  have r: "m mod t < t" using tpos by simp
  have lo: "2 * (a * t) < 2 * (m div t * t + m mod t) + t"
    using assms(2) unfolding m t_def [symmetric] A .
  have hi: "2 * (m div t * t + m mod t) < 2 * (a * t) + t"
    using assms(3) unfolding m t_def [symmetric] A .
  show ?thesis
    unfolding R A by (rule rne_arith_nearest [OF r lo hi])
qed

lemma floorlog2_pos_bounds:
  assumes "0 < m"
  shows "2 ^ (floorlog 2 m - 53) * 2 ^ 52 \<le> m \<or> floorlog 2 m - 53 = 0"
    and "m < 2 ^ (floorlog 2 m - 53) * 2 ^ 53"
proof -
  from floorlog_bounds [of m 2] assms
  have lo: "2 ^ (floorlog 2 m - 1) \<le> m" and hi: "m < 2 ^ floorlog 2 m" by simp_all
  show "2 ^ (floorlog 2 m - 53) * 2 ^ 52 \<le> m \<or> floorlog 2 m - 53 = 0"
  proof (cases "floorlog 2 m - 53 = 0")
    case False
    then have "floorlog 2 m - 53 + 52 = floorlog 2 m - 1" by simp
    then have "(2::nat) ^ (floorlog 2 m - 53) * 2 ^ 52 = 2 ^ (floorlog 2 m - 1)"
      by (simp only: power_add [symmetric])
    with lo show ?thesis by simp
  qed simp
  have "floorlog 2 m \<le> floorlog 2 m - 53 + 53" by simp
  then have "(2::nat) ^ floorlog 2 m \<le> 2 ^ (floorlog 2 m - 53 + 53)"
    by (rule power_increasing) simp
  with hi show "m < 2 ^ (floorlog 2 m - 53) * 2 ^ 53"
    by (simp only: power_add)
qed

lemma rne_mul_floor:
  fixes n M p q :: nat and d :: int
  assumes qM: "int q * int M = int p * 2 ^ 53 + d"
    and p: "0 < p" "p < q"
    and d1: "2 * \<bar>d\<bar> < int p"
    and d2: "\<bar>d\<bar> * 2 ^ 45 + int q * 2 ^ 44 < 2 ^ 53"
    and n: "n < 2 ^ 45"
  shows "rne53 (n * M) div 2 ^ 53 = n * p div q"
proof (cases "n = 0")
  case True
  then show ?thesis by (simp add: rne53_small)
next
  case False
  define P where "P = n * M"
  define k where "k = n * p div q"
  define r where "r = n * p mod q"
  define t :: nat where "t = 2 ^ (floorlog 2 P - 53)"
  have qpos: "0 < q" using p by simp
  have np: "n * p = k * q + r" by (simp add: k_def r_def)
  have rq: "r < q" using qpos by (simp add: r_def)
  have "int q * int P = int n * (int q * int M)" by (simp add: P_def)
  also have "\<dots> = int (n * p) * 2 ^ 53 + int n * d"
    unfolding qM by (simp add: algebra_simps)
  finally have E: "int q * int P = (int k * int q + int r) * 2 ^ 53 + int n * d"
    by (simp add: np)
  have "\<bar>int n * d\<bar> = int n * \<bar>d\<bar>" by (simp add: abs_mult)
  also have "\<dots> \<le> 2 ^ 45 * \<bar>d\<bar>"
    using n by (intro mult_right_mono) simp_all
  finally have nd: "\<bar>int n * d\<bar> \<le> \<bar>d\<bar> * 2 ^ 45" by (simp only: mult.commute)
  have q1: "1 \<le> int q" using qpos by simp
  have dsmall: "\<bar>d\<bar> * 2 ^ 45 < 2 ^ 53 - 2 ^ 44" using d2 q1 by simp
  have "int q * int M < int q * 2 ^ 53"
  proof -
    have "int p + 1 \<le> int q" using p by simp
    then have "(int p + 1) * 2 ^ 53 \<le> int q * 2 ^ 53" by (rule mult_right_mono) simp
    then show ?thesis using qM dsmall by (simp add: algebra_simps)
  qed
  then have Mlt: "int M < 2 ^ 53" using qpos by (simp only: mult_less_cancel_left_pos of_nat_0_less_iff)
  have "0 < int q * int M" using qM dsmall p by simp
  then have Mpos: "0 < M" using qpos by (simp add: zero_less_mult_iff)
  have Ppos: "0 < P" using False Mpos by (simp add: P_def)
  have "P < 2 ^ 45 * 2 ^ 53"
    unfolding P_def using n Mlt by (intro mult_strict_mono) simp_all
  then have "P < 2 ^ 98" by simp
  then have "floorlog 2 P \<le> 98" by (simp add: floorlog_le_iff)
  then have s45: "floorlog 2 P - 53 \<le> 45" by simp
  then have t45: "t \<le> 2 ^ 45" unfolding t_def by (intro power_increasing) simp_all
  have tpos: "0 < t" by (simp add: t_def)
  have "floorlog 2 P - 53 \<le> 53" using s45 by simp
  then have tdvd: "t dvd 2 ^ 53" unfolding t_def by (rule le_imp_power_dvd)
  have Pt: "P < t * 2 ^ 53" unfolding t_def by (rule floorlog2_pos_bounds(2) [OF Ppos])
  have B1: "2 * rne53 P \<le> 2 * P + t" and B2: "2 * P \<le> 2 * rne53 P + t"
    using rne53_bounds [of P] by (simp_all add: t_def)
  have "rne53 P div 2 ^ 53 = k"
  proof (cases "r = 0")
    case True
    define A where "A = k * 2 ^ 53"
    have tA: "t dvd A" unfolding A_def using tdvd by simp
    have EA: "int q * (int P - int A) = int n * d"
      using E True by (simp add: A_def algebra_simps)
    have "int q * (int p * (int P - int A)) = int p * (int q * (int P - int A))"
      by (simp only: mult.left_commute)
    also have "\<dots> = int p * (int n * d)" by (simp only: EA)
    also have "\<dots> = int (n * p) * d" by simp
    also have "\<dots> = int q * (int k * d)" using np True by simp
    finally have pk: "int p * (int P - int A) = int k * d"
      using qpos by simp
    have "1 * \<bar>int P - int A\<bar> \<le> int q * \<bar>int P - int A\<bar>"
      using q1 by (intro mult_right_mono) simp_all
    also have "\<dots> = \<bar>int n * d\<bar>" using EA [symmetric] by (simp add: abs_mult)
    finally have PA: "\<bar>int P - int A\<bar> < 2 ^ 53" using nd dsmall by simp
    have "int k * 2 ^ 53 < (int t + 1) * 2 ^ 53"
      using PA Pt by (simp add: A_def algebra_simps)
    then have "int k < int t + 1" by simp
    then have kt: "int k \<le> int t" by simp
    have "int p * (2 * \<bar>int P - int A\<bar>) = 2 * \<bar>int p * (int P - int A)\<bar>"
      by (simp add: abs_mult)
    also have "\<dots> = int k * (2 * \<bar>d\<bar>)" by (simp add: pk abs_mult)
    also have "\<dots> \<le> int t * (2 * \<bar>d\<bar>)" using kt by (intro mult_right_mono) simp_all
    also have "\<dots> < int t * int p" using d1 tpos by (intro mult_strict_left_mono) simp_all
    finally have "int p * (2 * \<bar>int P - int A\<bar>) < int p * int t" by (simp add: mult.commute)
    then have "2 * \<bar>int P - int A\<bar> < int t"
      using p(1) by (simp only: mult_less_cancel_left_pos of_nat_0_less_iff)
    then have "int (2 * A) < int (2 * P + t) \<and> int (2 * P) < int (2 * A + t)"
      by (simp add: abs_if split: if_splits)
    then have c: "2 * A < 2 * P + t \<and> 2 * P < 2 * A + t"
      by (simp only: of_nat_less_iff)
    have "rne53 P = A"
      using tA c unfolding t_def by (intro rne53_nearest) simp_all
    then show ?thesis by (simp add: A_def)
  next
    case False
    then have r1: "1 \<le> int r" by simp
    have r2: "int r + 1 \<le> int q" using rq by simp
    have "int q * (int P - int k * 2 ^ 53) = int r * 2 ^ 53 + int n * d"
      using E by (simp add: algebra_simps)
    moreover have "2 ^ 53 \<le> int r * (2 ^ 53 :: int)" using r1 by simp
    ultimately have "int q * 2 ^ 44 < int q * (int P - int k * 2 ^ 53)"
      using nd d2 by linarith
    then have L: "2 ^ 44 < int P - int k * 2 ^ 53"
      using qpos by (simp only: mult_less_cancel_left_pos of_nat_0_less_iff)
    have "int q * ((int k + 1) * 2 ^ 53 - int P) = (int q - int r) * 2 ^ 53 - int n * d"
      using E by (simp add: algebra_simps)
    moreover have "2 ^ 53 \<le> (int q - int r) * (2 ^ 53 :: int)"
      using r2 by simp
    ultimately have "int q * 2 ^ 44 < int q * ((int k + 1) * 2 ^ 53 - int P)"
      using nd d2 by linarith
    then have U: "2 ^ 44 < (int k + 1) * 2 ^ 53 - int P"
      using qpos by (simp only: mult_less_cancel_left_pos of_nat_0_less_iff)
    have "int t \<le> int (2 ^ 45)" using t45 by (simp only: of_nat_le_iff)
    then have t': "int t \<le> 2 ^ 45" by simp
    have B1i: "2 * int (rne53 P) \<le> 2 * int P + int t" using B1 by linarith
    have B2i: "2 * int P \<le> 2 * int (rne53 P) + int t" using B2 by linarith
    have "int k * 2 ^ 53 \<le> int (rne53 P)" using L B2i t' by simp
    then have "int (2 ^ 53 * k) \<le> int (rne53 P)" by (simp add: algebra_simps)
    then have lo: "2 ^ 53 * k \<le> rne53 P" by (simp only: of_nat_le_iff)
    have "int (rne53 P) < (int k + 1) * 2 ^ 53" using U B1i t' by simp
    then have "int (rne53 P) < int (2 ^ 53 * Suc k)" by (simp add: algebra_simps)
    then have hi: "rne53 P < 2 ^ 53 * Suc k" by (simp only: of_nat_less_iff)
    show ?thesis using lo hi by (rule div_nat_eqI)
  qed
  then show ?thesis by (simp add: P_def k_def)
qed

lemma mant53_50: "mant53 50 100 = 4503599627370496"
  by (simp add: mant53_def Let_def)

lemma mant53_90: "mant53 90 100 = 8106479329266893"
  by (simp add: mant53_def Let_def)

lemma mant53_95: "mant53 95 100 = 8556839292003942"
  by (simp add: mant53_def Let_def)

lemma mant53_99: "mant53 99 100 = 8917127262193582"
  by (simp add: mant53_def Let_def)

lemma pidx_50: "n < 2 ^ 45 \<Longrightarrow> pidx 50 100 n = n * 50 div 100"
  unfolding pidx_def mant53_50
  by (subst rne53_small, simp, rule rne_mul_floor [where d = 0]) simp_all

lemma pidx_90: "n < 2 ^ 45 \<Longrightarrow> pidx 90 100 n = n * 90 div 100"
  unfolding pidx_def mant53_90
  by (subst rne53_small, simp, rule rne_mul_floor [where d = 20]) simp_all

lemma pidx_95: "n < 2 ^ 45 \<Longrightarrow> pidx 95 100 n = n * 95 div 100"
  unfolding pidx_def mant53_95
  by (subst rne53_small, simp, rule rne_mul_floor [where d = "-40"]) simp_all

lemma pidx_99: "n < 2 ^ 45 \<Longrightarrow> pidx 99 100 n = n * 99 div 100"
  unfolding pidx_def mant53_99
  by (subst rne53_small, simp, rule rne_mul_floor [where d = "-8"]) simp_all



section \<open>Percentiles and the report (lines 149-186)\<close>

text \<open>
  Go run-time panics that the modelled code can raise: \<open>make(chan T, n)\<close> with a
  negative \<open>n\<close> (for each of the two channels), an index out of range, and an integer
  division by zero.
\<close>

datatype panic = MakeChanResults | MakeChanJobs | IndexOutOfRange | IntegerDivideByZero

text \<open>\<open>durations[i]\<close>: the element, or the panic Go raises out of range.\<close>

definition index_at :: "int list \<Rightarrow> nat \<Rightarrow> panic + int" where
  "index_at xs i = (if i < length xs then Inr (xs ! i) else Inl IndexOutOfRange)"

text \<open>The variables \<open>p50, p90, p95, p99\<close> of line 151.\<close>

record percentiles =
  p50 :: int
  p90 :: int
  p95 :: int
  p99 :: int

text \<open>
  Lines 151-159: the four variables keep their zero value unless \<open>len(durations) > 0\<close>;
  then the slice is sorted (\<open>slices.Sort\<close>) and indexed four times.
\<close>

definition percentiles_of :: "int list \<Rightarrow> panic + percentiles" where
  "percentiles_of ds =
     (if length ds > 0 then
        (let sorted = sort ds; n = length sorted
         in case index_at sorted (pidx 50 100 n) of Inl e \<Rightarrow> Inl e | Inr a \<Rightarrow>
           (case index_at sorted (pidx 90 100 n) of Inl e \<Rightarrow> Inl e | Inr b \<Rightarrow>
           (case index_at sorted (pidx 95 100 n) of Inl e \<Rightarrow> Inl e | Inr c \<Rightarrow>
           (case index_at sorted (pidx 99 100 n) of Inl e \<Rightarrow> Inl e | Inr d \<Rightarrow>
              Inr \<lparr>p50 = a, p90 = b, p95 = c, p99 = d\<rparr>))))
      else Inr \<lparr>p50 = 0, p90 = 0, p95 = 0, p99 = 0\<rparr>)"

text \<open>Go's integer division: it truncates towards zero, and panics on a zero divisor.\<close>

definition go_div :: "int \<Rightarrow> int \<Rightarrow> panic + int" where
  "go_div a b =
     (if b = 0 then Inl IntegerDivideByZero else Inr (sgn a * sgn b * (\<bar>a\<bar> div \<bar>b\<bar>)))"

text \<open>
  A \<open>float64\<close> division of the report, kept as its two operands: the integer that
  \<open>float64(...)\<close> converts, and the divisor (for \<open>totalTestTime.Seconds()\<close> the
  duration in nanoseconds, which is zero exactly when the number of seconds is). A
  \<open>float64\<close> division by zero does not panic in Go; it yields an infinity or NaN.
\<close>

record float_div =
  dividend :: int
  divisor :: int

text \<open>The lines printed only under \<open>if totalRequests > 0\<close> (lines 169-186).\<close>

record latency_section =
  average_duration :: int
  min_duration :: int
  max_duration :: int
  pct50 :: int
  pct90 :: int
  pct95 :: int
  pct99 :: int
  throughput :: "float_div option"
  success_rate :: float_div

text \<open>
  What \<open>Test\<close> prints after the collector loop. The durations are the values handed
  to the formatting calls; \<open>Round\<close> and the layout of the lines are not modelled.
\<close>

record report =
  time_taken :: int
  total_requests :: int
  successful_requests :: int
  failed_requests :: int
  requests_per_second :: float_div
  details :: "latency_section option"

text \<open>
  Lines 149-186, given the state of the collector and \<open>totalTestTime\<close>, the reading
  of \<open>time.Since(startTime)\<close>.
\<close>

definition build_report :: "collector \<Rightarrow> int \<Rightarrow> panic + report" where
  "build_report c totalTestTime =
     (case percentiles_of (durations c) of Inl e \<Rightarrow> Inl e | Inr ps \<Rightarrow>
        (let rps = \<lparr>dividend = totalRequests c, divisor = totalTestTime\<rparr>
         in if totalRequests c > 0 then
              (case go_div (totalDuration c) (totalRequests c) of Inl e \<Rightarrow> Inl e
               | Inr avgDuration \<Rightarrow>
                   Inr \<lparr>time_taken = totalTestTime, total_requests = totalRequests c,
                        successful_requests = successCount c, failed_requests = failedCount c,
                        requests_per_second = rps,
                        details = Some
                          \<lparr>average_duration = avgDuration, min_duration = minDuration c,
                           max_duration = maxDuration c,
                           pct50 = p50 ps, pct90 = p90 ps, pct95 = p95 ps, pct99 = p99 ps,
                           throughput =
                             (if totalTestTime > 0
                              then Some \<lparr>dividend = totalBytes c, divisor = totalTestTime\<rparr>
                              else None),
                           success_rate =
                             \<lparr>dividend = successCount c, divisor = totalRequests c\<rparr>\<rparr>\<rparr>)
            else
              Inr \<lparr>time_taken = totalTestTime, total_requests = totalRequests c,
                   successful_requests = successCount c, failed_requests = failedCount c,
                   requests_per_second = rps, details = None\<rparr>))"

subsection \<open>The percentiles of a non-empty run\<close>

lemma rank_lt: "0 < n \<Longrightarrow> p < 100 \<Longrightarrow> n * p div 100 < (n::nat)"
  by (simp add: less_mult_imp_div_less)

lemma percentiles_of_nonempty:
  assumes "ds \<noteq> []" and "length ds < 2 ^ 45"
  shows "percentiles_of ds =
           Inr \<lparr>p50 = sort ds ! (length ds * 50 div 100),
                p90 = sort ds ! (length ds * 90 div 100),
                p95 = sort ds ! (length ds * 95 div 100),
                p99 = sort ds ! (length ds * 99 div 100)\<rparr>"
proof -
  have pos: "0 < length ds" using assms(1) by simp
  have a: "index_at (sort ds) (pidx 50 100 (length (sort ds))) =
             Inr (sort ds ! (length ds * 50 div 100))"
    using assms(2) rank_lt [OF pos, of 50] by (simp add: index_at_def pidx_50)
  have b: "index_at (sort ds) (pidx 90 100 (length (sort ds))) =
             Inr (sort ds ! (length ds * 90 div 100))"
    using assms(2) rank_lt [OF pos, of 90] by (simp add: index_at_def pidx_90)
  have c: "index_at (sort ds) (pidx 95 100 (length (sort ds))) =
             Inr (sort ds ! (length ds * 95 div 100))"
    using assms(2) rank_lt [OF pos, of 95] by (simp add: index_at_def pidx_95)
  have d: "index_at (sort ds) (pidx 99 100 (length (sort ds))) =
             Inr (sort ds ! (length ds * 99 div 100))"
    using assms(2) rank_lt [OF pos, of 99] by (simp add: index_at_def pidx_99)
  show ?thesis
    using pos unfolding percentiles_of_def Let_def a b c d by simp
qed

lemma collect_total_pos: "rs \<noteq> [] \<Longrightarrow> totalRequests (collect rs) > 0"
  by (simp add: collect_total)

lemma build_report_nonempty:
  assumes "rs \<noteq> []" and "length rs < 2 ^ 45"
  shows "build_report (collect rs) t =
    Inr \<lparr>time_taken = t, total_requests = totalRequests (collect rs),
         successful_requests = successCount (collect rs),
         failed_requests = failedCount (collect rs),
         requests_per_second = \<lparr>dividend = totalRequests (collect rs), divisor = t\<rparr>,
         details = Some
           \<lparr>average_duration =
              sgn (totalDuration (collect rs)) * sgn (totalRequests (collect rs)) *
              (\<bar>totalDuration (collect rs)\<bar> div \<bar>totalRequests (collect rs)\<bar>),
            min_duration = minDuration (collect rs),
            max_duration = maxDuration (collect rs),
            pct50 = sort (map Duration rs) ! (length rs * 50 div 100),
            pct90 = sort (map Duration rs) ! (length rs * 90 div 100),
            pct95 = sort (map Duration rs) ! (length rs * 95 div 100),
            pct99 = sort (map Duration rs) ! (length rs * 99 div 100),
            throughput =
              (if t > 0 then Some \<lparr>dividend = totalBytes (collect rs), divisor = t\<rparr> else None),
            success_rate =
              \<lparr>dividend = successCount (collect rs), divisor = totalRequests (collect rs)\<rparr>\<rparr>\<rparr>"
proof -
  have ps: "percentiles_of (durations (collect rs)) =
              Inr \<lparr>p50 = sort (map Duration rs) ! (length rs * 50 div 100),
                   p90 = sort (map Duration rs) ! (length rs * 90 div 100),
                   p95 = sort (map Duration rs) ! (length rs * 95 div 100),
                   p99 = sort (map Duration rs) ! (length rs * 99 div 100)\<rparr>"
    using percentiles_of_nonempty [of "map Duration rs"] assms
    by (simp add: collect_durations)
  have pos: "totalRequests (collect rs) > 0"
    using assms(1) by (rule collect_total_pos)
  then have dv: "go_div (totalDuration (collect rs)) (totalRequests (collect rs)) =
      Inr (sgn (totalDuration (collect rs)) * sgn (totalRequests (collect rs)) *
           (\<bar>totalDuration (collect rs)\<bar> div \<bar>totalRequests (collect rs)\<bar>))"
    by (simp add: go_div_def)
  show ?thesis
    unfolding build_report_def ps dv Let_def using pos by simp
qed

lemma sort_nth_mem: "i < length ds \<Longrightarrow> sort ds ! i \<in> set ds"
  by (metis length_sort nth_mem set_sort)

lemma sort_nth_mono: "i \<le> j \<Longrightarrow> j < length ds \<Longrightarrow> sort ds ! i \<le> sort ds ! j"
  by (simp add: sorted_nth_mono)

text \<open>
  Claim C2. For a non-empty list of collected durations, the reported p50, p90, p95 and
  p99 are the elements of the ascending sort at the zero-based indices
  \<open>floor(0.50 * len)\<close>, \<open>floor(0.90 * len)\<close>, \<open>floor(0.95 * len)\<close> and
  \<open>floor(0.99 * len)\<close> (written \<open>len * 50 div 100\<close> and so on), and each index is
  within bounds. The \<open>float64\<close> product is exact enough for this up to
  \<open>len < 2 ^ 45\<close>; a Go slice of 8-byte durations cannot be longer, since the
  runtime allocates at most \<open>2 ^ 48\<close> bytes.
\<close>

theorem reported_percentiles:
  assumes "rs \<noteq> []" and "length rs < 2 ^ 45"
  shows "\<exists>r l. build_report (collect rs) t = Inr r \<and> details r = Some l \<and>
           pct50 l = sort (map Duration rs) ! (length rs * 50 div 100) \<and>
           pct90 l = sort (map Duration rs) ! (length rs * 90 div 100) \<and>
           pct95 l = sort (map Duration rs) ! (length rs * 95 div 100) \<and>
           pct99 l = sort (map Duration rs) ! (length rs * 99 div 100) \<and>
           length rs * 50 div 100 < length rs \<and>
           length rs * 90 div 100 < length rs \<and>
           length rs * 95 div 100 < length rs \<and>
           length rs * 99 div 100 < length rs"
proof -
  have pos: "0 < length rs" using assms(1) by simp
  show ?thesis
    unfolding build_report_nonempty [OF assms]
    using rank_lt [OF pos, of 50] rank_lt [OF pos, of 90]
      rank_lt [OF pos, of 95] rank_lt [OF pos, of 99]
    by simp
qed

theorem reported_percentiles_witness:
  "[\<lparr>StatusCode = 200, Duration = 9, Bytes = 1, Error = None\<rparr>,
    \<lparr>StatusCode = 200, Duration = 5, Bytes = 1, Error = None\<rparr>,
    \<lparr>StatusCode = 500, Duration = 7, Bytes = 1, Error = None\<rparr>] \<noteq> [] \<and>
   (\<exists>r l. build_report
             (collect [\<lparr>StatusCode = 200, Duration = 9, Bytes = 1, Error = None\<rparr>,
                       \<lparr>StatusCode = 200, Duration = 5, Bytes = 1, Error = None\<rparr>,
                       \<lparr>StatusCode = 500, Duration = 7, Bytes = 1, Error = None\<rparr>]) 1000 = Inr r \<and>
          details r = Some l \<and>
          pct50 l = 7 \<and> pct90 l = 9 \<and> pct95 l = 9 \<and> pct99 l = 9)"
  using reported_percentiles
    [of "[\<lparr>StatusCode = 200, Duration = 9, Bytes = 1, Error = None\<rparr>,
          \<lparr>StatusCode = 200, Duration = 5, Bytes = 1, Error = None\<rparr>,
          \<lparr>StatusCode = 500, Duration = 7, Bytes = 1, Error = None\<rparr>]" 1000]
  by simp


text \<open>
  Claim C9. For a non-empty set of collected durations the reported statistics satisfy
  \<open>min \<le> p50 \<le> p90 \<le> p95 \<le> p99 \<le> max\<close>.
\<close>

theorem reported_order:
  assumes "rs \<noteq> []" and "length rs < 2 ^ 45"
  shows "\<exists>r l. build_report (collect rs) t = Inr r \<and> details r = Some l \<and>
           min_duration l \<le> pct50 l \<and> pct50 l \<le> pct90 l \<and> pct90 l \<le> pct95 l \<and>
           pct95 l \<le> pct99 l \<and> pct99 l \<le> max_duration l"
proof -
  let ?ds = "map Duration rs"
  let ?n = "length rs"
  have pos: "0 < ?n" using assms(1) by simp
  have i99: "?n * 99 div 100 < length ?ds" using rank_lt [OF pos, of 99] by simp
  have i50: "?n * 50 div 100 < length ?ds" using rank_lt [OF pos, of 50] by simp
  have a: "sort ?ds ! (?n * 50 div 100) \<le> sort ?ds ! (?n * 90 div 100)"
    using rank_lt [OF pos, of 90] by (intro sort_nth_mono div_le_mono) simp_all
  have b: "sort ?ds ! (?n * 90 div 100) \<le> sort ?ds ! (?n * 95 div 100)"
    using rank_lt [OF pos, of 95] by (intro sort_nth_mono div_le_mono) simp_all
  have c: "sort ?ds ! (?n * 95 div 100) \<le> sort ?ds ! (?n * 99 div 100)"
    using rank_lt [OF pos, of 99] by (intro sort_nth_mono div_le_mono) simp_all
  have "sort ?ds ! (?n * 50 div 100) \<in> Duration ` set rs"
    using sort_nth_mem [OF i50] by simp
  then have mn: "minDuration (collect rs) \<le> sort ?ds ! (?n * 50 div 100)"
    unfolding collect_min by (intro Min_le) simp_all
  have "sort ?ds ! (?n * 99 div 100) \<in> Duration ` set rs"
    using sort_nth_mem [OF i99] by simp
  then have mx: "sort ?ds ! (?n * 99 div 100) \<le> maxDuration (collect rs)"
    unfolding collect_max by (intro Max_ge) simp_all
  show ?thesis
    unfolding build_report_nonempty [OF assms] using a b c mn mx by simp
qed


theorem reported_order_witness:
  "[\<lparr>StatusCode = 200, Duration = 9, Bytes = 1, Error = None\<rparr>,
    \<lparr>StatusCode = 0, Duration = 5, Bytes = 0, Error = Some ''refused''\<rparr>] \<noteq> [] \<and>
   (\<exists>r l. build_report
             (collect [\<lparr>StatusCode = 200, Duration = 9, Bytes = 1, Error = None\<rparr>,
                       \<lparr>StatusCode = 0, Duration = 5, Bytes = 0, Error = Some ''refused''\<rparr>]) 20 = Inr r \<and>
          details r = Some l \<and>
          min_duration l \<le> pct50 l \<and> pct50 l \<le> pct90 l \<and> pct90 l \<le> pct95 l \<and>
          pct95 l \<le> pct99 l \<and> pct99 l \<le> max_duration l)"
  using reported_order
    [of "[\<lparr>StatusCode = 200, Duration = 9, Bytes = 1, Error = None\<rparr>,
          \<lparr>StatusCode = 0, Duration = 5, Bytes = 0, Error = Some ''refused''\<rparr>]" 20]
  by simp

section \<open>A run without Outcomes\<close>




end
